theory Spec2Isabelle
  imports Main "HOL-Library.Sublist"
begin

section \<open>The chat client of \<^verbatim>\<open>devin_app/frontend/app.js\<close>\<close>

text \<open>
  The development embeds the client-side stream consumer of \<^verbatim>\<open>sendMessage\<close> and the
  functions it calls (\<^verbatim>\<open>updateMessageContent\<close>, \<open>showToolIndicator\<close>,
  \<open>removeLoadingIndicator\<close>, \<open>renderMarkdown\<close>, \<open>addMessage\<close>, \<open>addPdfImages\<close>).
  A string is the list of its UTF-16 code units, each a \<open>char\<close>: the texts of the
  development are those whose code units are below U+0100, and \<open>of_char\<close> gives the
  code point of a unit. A chunk is the text that \<^verbatim>\<open>decoder.decode(value)\<close> returns for
  one read.
\<close>

subsection \<open>Values decoded from the wire\<close>

text \<open>
  The values \<^verbatim>\<open>JSON.parse\<close> can return. A number is carried as the text JavaScript prints
  for it, since the client uses decoded values only by reading properties, comparing
  with \<^verbatim>\<open>===\<close> against string constants and converting to strings. An object is the
  list of its own properties in the order of the text; where a name is listed more
  than once the last entry is the property, as \<^verbatim>\<open>JSON.parse\<close> has it.
\<close>

datatype jsval =
    JUndefined
  | JNull
  | JBool bool
  | JNum string
  | JStr string
  | JArr "jsval list"
  | JObj "(string \<times> jsval) list"

datatype exn = TypeError | SyntaxError

text \<open>
  \<^verbatim>\<open>data.k\<close> on a value other than \<^verbatim>\<open>null\<close>, for the property names the client
  reads (\<open>type\<close>, \<open>content\<close>, \<open>tool\<close>, \<open>conversation_id\<close>, \<open>error\<close>): none of them is
  defined on the prototypes of strings, numbers, booleans, arrays or objects, so only
  an own property of an object gives a value other than \<^verbatim>\<open>undefined\<close>.
\<close>

fun get_property :: "jsval \<Rightarrow> string \<Rightarrow> jsval" where
  "get_property (JObj ps) k = (case map_of (rev ps) k of None \<Rightarrow> JUndefined | Some v \<Rightarrow> v)"
| "get_property v k = JUndefined"

fun join_comma :: "string list \<Rightarrow> string" where
  "join_comma [] = []"
| "join_comma [s] = s"
| "join_comma (s # t # ss) = s @ '','' @ join_comma (t # ss)"

text \<open>
  String conversion, as \<^verbatim>\<open>+=\<close> on a string and a template literal perform it. An array
  joins its elements with commas (\<^verbatim>\<open>null\<close> elements print as nothing); a decoded object
  prints as \<^verbatim>\<open>[object Object]\<close>, unless it has an own property \<^verbatim>\<open>toString\<close>: that
  property is no function, and the conversion throws a TypeError (\<open>None\<close>).
\<close>

fun ToString :: "jsval \<Rightarrow> string option" where
  "ToString JUndefined = Some ''undefined''"
| "ToString JNull = Some ''null''"
| "ToString (JBool b) = Some (if b then ''true'' else ''false'')"
| "ToString (JNum t) = Some t"
| "ToString (JStr s) = Some s"
| "ToString (JArr vs) =
     map_option join_comma
       (those (map (\<lambda>v. if v = JUndefined \<or> v = JNull then Some [] else ToString v) vs))"
| "ToString (JObj ps) =
     (if ''toString'' \<in> fst ` set ps then None else Some ''[object Object]'')"

subsection \<open>The content element of the pending assistant entry\<close>

text \<open>
  The children of the \<^verbatim>\<open>.message-content\<close> element: the loading indicator that
  \<open>addMessage\<close> puts there, tool indicators (with their \<^verbatim>\<open>data-tool\<close> attribute, class and
  text), and \<open>Rendered s\<close>, the nodes that assigning \<^verbatim>\<open>renderMarkdown(s)\<close> to \<open>innerHTML\<close>
  creates. The markdown and math renderers are external libraries, and what they
  produce from \<open>s\<close> is kept as one node. \<open>Untracked\<close> stands for content that is not
  followed any further (see \<open>tracked\<close> below). The white-space text nodes around the
  loading indicator are left out.
\<close>

datatype indicator_class = Active | Complete

datatype node =
    Loading_indicator
  | Tool_indicator string indicator_class string
  | Rendered string
  | Untracked

text \<open>
  The markdown renderer passes raw HTML through, so the rendering of a text can hold
  elements of any class, the classes \<^verbatim>\<open>loading-indicator\<close> and \<^verbatim>\<open>tool-indicator\<close> of the
  script among them, and the selectors of the script find such elements. Raw HTML
  starts with \<^verbatim>\<open><\<close>; without that character the rendering consists of the elements
  that the renderers create themselves, none of which has one of the two classes.
  Such a text is \<open>inert\<close>. The children of an element are \<open>tracked\<close> when every
  rendering among them is that of an inert text: then the elements of the two classes
  are exactly the \<open>Loading_indicator\<close> and \<open>Tool_indicator\<close> nodes of the list. Where a
  selector is evaluated on children that are not tracked, what it finds is not
  determined here, and the result is \<open>Untracked\<close>.
\<close>

definition inert :: "string \<Rightarrow> bool" where
  "inert s = (CHR ''<'' \<notin> set s)"

fun tracked_node :: "node \<Rightarrow> bool" where
  "tracked_node (Rendered s) = inert s"
| "tracked_node Untracked = False"
| "tracked_node n = True"

definition tracked :: "node list \<Rightarrow> bool" where
  "tracked ns = list_all tracked_node ns"

record session =
  currentConversationId :: jsval

text \<open>
  What the read loop of \<open>sendMessage\<close> reads and writes: its local \<open>fullContent\<close>, the
  global \<open>currentConversationId\<close>, and \<open>entry\<close>, the children of the content element
  that \<^verbatim>\<open>document.getElementById(assistantMessageId)\<close> and
  \<^verbatim>\<open>querySelector('.message-content')\<close> resolve to (\<open>None\<close> when there is no such element,
  the case in which every DOM function returns at once).
\<close>

record turn = session +
  fullContent :: string
  entry :: "node list option"

definition renderMarkdown :: "string \<Rightarrow> node list" where
  "renderMarkdown content = (if content = [] then [] else [Rendered content])"

text \<open>
  \<open>updateMessageContent\<close> removes the loading indicator it finds and then assigns
  \<open>innerHTML\<close>, which replaces all the children whatever they were.
\<close>

definition updateMessageContent :: "node list option \<Rightarrow> string \<Rightarrow> node list option" where
  "updateMessageContent e content =
     (case e of
        None \<Rightarrow> None
      | Some ns \<Rightarrow>
          (let without_loading = remove1 Loading_indicator ns
           in Some (renderMarkdown content)))"

text \<open>
  \<open>removeLoadingIndicator\<close> removes the first element of class \<^verbatim>\<open>loading-indicator\<close>
  under the message element.
\<close>

definition removeLoadingIndicator :: "node list option \<Rightarrow> node list option" where
  "removeLoadingIndicator e =
     (case e of
        None \<Rightarrow> None
      | Some ns \<Rightarrow> if tracked ns then Some (remove1 Loading_indicator ns) else Some [Untracked])"

subsection \<open>The selector for a tool name\<close>

text \<open>
  \<open>showToolIndicator\<close> builds the selector text
  \<^verbatim>\<open>.tool-indicator[data-tool="${toolName}"]\<close> by splicing the name between double quotes,
  so the name is read as the inside of a CSS string. The functions below follow the
  CSS syntax for that: CR, FF and CR LF count as one line feed and NUL as U+FFFD; a
  line feed ends the string badly; a backslash before a line feed continues the
  string, before one to six hexadecimal digits (and one white space after them) it
  gives the code point they write, and before any other character it gives that
  character.
\<close>

definition css_newline :: "char \<Rightarrow> bool" where
  "css_newline c = (c = CHR 0x0A \<or> c = CHR 0x0D \<or> c = CHR 0x0C)"

definition css_ws :: "char \<Rightarrow> bool" where
  "css_ws c = (css_newline c \<or> c = CHR 0x09 \<or> c = CHR 0x20)"

definition is_hex :: "char \<Rightarrow> bool" where
  "is_hex c = (c \<in> set ''0123456789abcdefABCDEF'')"

definition hex_digit :: "char \<Rightarrow> nat" where
  "hex_digit c =
     (let n = of_char c in
      if n < 0x3A then n - 0x30 else if n < 0x47 then n - 0x37 else n - 0x57)"

definition hex_value :: "string \<Rightarrow> nat" where
  "hex_value h = foldl (\<lambda>v c. 16 * v + hex_digit c) 0 h"

text \<open>At most \<open>k\<close> hexadecimal digits at the head of a text, and the text after them.\<close>

fun take_hex :: "nat \<Rightarrow> string \<Rightarrow> string \<times> string" where
  "take_hex k [] = ([], [])"
| "take_hex k (c # cs) =
     (if 0 < k \<and> is_hex c then (case take_hex (k - 1) cs of (h, r) \<Rightarrow> (c # h, r))
      else ([], c # cs))"

fun skip_one_ws :: "string \<Rightarrow> string" where
  "skip_one_ws [] = []"
| "skip_one_ws [c] = (if css_ws c then [] else [c])"
| "skip_one_ws (c # d # cs) =
     (if c = CHR 0x0D \<and> d = CHR 0x0A then cs else if css_ws c then d # cs else c # d # cs)"

text \<open>The code point that an escape with the given number writes.\<close>

definition code_point :: "nat \<Rightarrow> nat" where
  "code_point n = (if n = 0 \<or> (0xD800 \<le> n \<and> n \<le> 0xDFFF) \<or> 0x10FFFF < n then 0xFFFD else n)"

definition cp_of :: "char \<Rightarrow> nat" where
  "cp_of c = (if c = CHR 0x00 then 0xFFFD else of_char c)"

text \<open>
  What the selector text is, for a name: the test that \<^verbatim>\<open>data-tool\<close> equals a string
  (given by its code points), a text that is no selector, for which \<open>querySelector\<close>
  throws a SyntaxError, or some other selector, which is not followed here.
\<close>

datatype selector = Attr_equal "nat list" | Syntax_error | Other_selector

fun cons_cp :: "nat \<Rightarrow> selector \<Rightarrow> selector" where
  "cons_cp n (Attr_equal v) = Attr_equal (n # v)"
| "cons_cp n s = s"

text \<open>
  A double quote inside the name ends the string. What follows it, up to the \<^verbatim>\<open>"]\<close> of
  the template, has to be a closing bracket, with at most white space, comments and a
  modifier \<^verbatim>\<open>i\<close> or \<^verbatim>\<open>s\<close> before it; if it starts otherwise the text is no selector. If
  it may start so, the text goes on after the bracket and can be another selector.
\<close>

definition after_string :: "string \<Rightarrow> selector" where
  "after_string r =
     (case dropWhile css_ws (r @ [CHR 0x22, CHR '']'']) of
        [] \<Rightarrow> Other_selector
      | c # cs \<Rightarrow> if c \<in> set '']iIsS/'' \<or> c = CHR 0x5C then Other_selector else Syntax_error)"

text \<open>
  The inside of the string. When the name ends, the quote of the template ends the
  string and the bracket after it the test; a backslash at the very end of the name
  escapes that quote instead, and the text is not followed.
\<close>

function css_string :: "string \<Rightarrow> selector" where
  "css_string [] = Attr_equal []"
| "css_string (c # cs) =
     (if c = CHR 0x22 then after_string cs
      else if css_newline c then Syntax_error
      else if c = CHR 0x5C then
        (case cs of
           [] \<Rightarrow> Other_selector
         | e # r \<Rightarrow>
             if css_newline e then css_string (skip_one_ws cs)
             else if is_hex e then
               cons_cp (code_point (hex_value (fst (take_hex 6 cs))))
                 (css_string (skip_one_ws (snd (take_hex 6 cs))))
             else cons_cp (cp_of e) (css_string r))
      else cons_cp (cp_of c) (css_string cs))"
  by pat_completeness auto
termination
proof (relation "measure length")
  have hex: "length (snd (take_hex k s)) \<le> length s" for k s
    by (induction k s rule: take_hex.induct) (auto split: prod.splits)
  have ws: "length (skip_one_ws s) \<le> length s" for s
    by (induction s rule: skip_one_ws.induct) auto
  show "wf (measure length)" by simp
  fix c :: char and cs :: string and e :: char and r :: string
  assume cs: "cs = e # r"
  show "(skip_one_ws cs, c # cs) \<in> measure length"
    using ws [of cs] by simp
  show "(skip_one_ws (snd (take_hex 6 cs)), c # cs) \<in> measure length"
    using ws [of "snd (take_hex 6 cs)"] hex [of 6 cs] by simp
  show "(r, c # cs) \<in> measure length"
    using cs by simp
next
  fix c :: char and cs :: string
  show "(cs, c # cs) \<in> measure length" by simp
qed

declare css_string.simps [simp del]

text \<open>
  The names that are their own string: no double quote, backslash, line feed, carriage
  return, form feed or NUL.
\<close>

definition plain_name :: "string \<Rightarrow> bool" where
  "plain_name t =
     (\<forall>c \<in> set t. c \<notin> {CHR 0x22, CHR 0x5C, CHR 0x0A, CHR 0x0D, CHR 0x0C, CHR 0x00})"

fun is_tool_indicator :: "nat list \<Rightarrow> node \<Rightarrow> bool" where
  "is_tool_indicator v (Tool_indicator d c x) = (map of_char d = v)"
| "is_tool_indicator v n = False"

text \<open>
  \<^verbatim>\<open>contentDiv.querySelector\<close> with the test for the value \<open>v\<close>, on tracked children: the
  position of the first tool indicator whose \<^verbatim>\<open>data-tool\<close> is \<open>v\<close>.
\<close>

fun querySelector_tool :: "nat list \<Rightarrow> node list \<Rightarrow> nat option" where
  "querySelector_tool v [] = None"
| "querySelector_tool v (n # ns) =
     (if is_tool_indicator v n then Some 0 else map_option Suc (querySelector_tool v ns))"

text \<open>\<^verbatim>\<open>parent.insertBefore(new, ref)\<close> for a child \<open>ref\<close> of the parent.\<close>

fun insertBefore :: "node \<Rightarrow> node \<Rightarrow> node list \<Rightarrow> node list" where
  "insertBefore new ref [] = [new]"
| "insertBefore new ref (n # ns) =
     (if n = ref then new # n # ns else n # insertBefore new ref ns)"

text \<open>
  The two assignments of the branch for \<^verbatim>\<open>isActive = false\<close>: class and text change, the
  \<^verbatim>\<open>data-tool\<close> attribute stays.
\<close>

fun complete_indicator :: "string \<Rightarrow> node \<Rightarrow> node" where
  "complete_indicator t (Tool_indicator d c x) = Tool_indicator d Complete (''Used: '' @ t)"
| "complete_indicator t n = n"

text \<open>
  \<open>showToolIndicator\<close>. The name is converted to a string when the selector is built,
  after the two early returns; a conversion or a selector that throws leaves the
  element as it was.
\<close>

definition showToolIndicator ::
  "node list option \<Rightarrow> jsval \<Rightarrow> bool \<Rightarrow> exn + node list option" where
  "showToolIndicator e toolName isActive =
     (case e of
        None \<Rightarrow> Inr None
      | Some ns \<Rightarrow>
          (case ToString toolName of
             None \<Rightarrow> Inl TypeError
           | Some t \<Rightarrow>
               (case css_string t of
                  Syntax_error \<Rightarrow> Inl SyntaxError
                | Other_selector \<Rightarrow> Inr (Some [Untracked])
                | Attr_equal v \<Rightarrow>
                    if \<not> tracked ns then Inr (Some [Untracked])
                    else
                      (case querySelector_tool v ns of
                         None \<Rightarrow>
                           if isActive then
                             (let toolIndicator =
                                    Tool_indicator t Active (''Using: '' @ t @ ''...'')
                              in if Loading_indicator \<in> set ns
                                 then Inr (Some (insertBefore toolIndicator Loading_indicator ns))
                                 else Inr (Some (toolIndicator # ns)))
                           else Inr (Some ns)
                       | Some i \<Rightarrow>
                           if isActive then Inr (Some ns)
                           else Inr (Some (ns[i := complete_indicator t (ns ! i)]))))))"

subsection \<open>The read loop of \<open>sendMessage\<close>\<close>

text \<open>
  The chain of tests on one decoded value \<open>data\<close> (the body of the \<^verbatim>\<open>try\<close>, after
  \<^verbatim>\<open>JSON.parse\<close>). Reading \<^verbatim>\<open>data.type\<close> of \<^verbatim>\<open>null\<close> throws. \<open>Inl\<close> is an exception; each
  one is raised before the branch has changed anything.
\<close>

definition sendMessage_data :: "turn \<Rightarrow> jsval \<Rightarrow> exn + turn" where
  "sendMessage_data st data =
     (if data = JNull \<or> data = JUndefined then Inl TypeError
      else if get_property data ''type'' = JStr ''content'' then
        (case ToString (get_property data ''content'') of
           None \<Rightarrow> Inl TypeError
         | Some s \<Rightarrow>
             (let fc = fullContent st @ s
              in Inr (st\<lparr>fullContent := fc, entry := updateMessageContent (entry st) fc\<rparr>)))
      else if get_property data ''type'' = JStr ''tool_start'' then
        (case showToolIndicator (entry st) (get_property data ''tool'') True of
           Inl x \<Rightarrow> Inl x
         | Inr e \<Rightarrow> Inr (st\<lparr>entry := e\<rparr>))
      else if get_property data ''type'' = JStr ''tool_end'' then
        (case showToolIndicator (entry st) (get_property data ''tool'') False of
           Inl x \<Rightarrow> Inl x
         | Inr e \<Rightarrow> Inr (st\<lparr>entry := e\<rparr>))
      else if get_property data ''type'' = JStr ''done'' then
        Inr (st\<lparr>currentConversationId := get_property data ''conversation_id''\<rparr>)
      else if get_property data ''type'' = JStr ''error'' then
        (case ToString (get_property data ''error'') of
           None \<Rightarrow> Inl TypeError
         | Some s \<Rightarrow> Inr (st\<lparr>entry := updateMessageContent (entry st) (''Error: '' @ s)\<rparr>))
      else Inr st)"

text \<open>
  \<^verbatim>\<open>chunk.split('\n')\<close>: the pieces between line feeds, one more piece than there are line
  feeds. The result is never empty, so the \<open>[]\<close> case below is never taken.
\<close>

fun split_newline :: "string \<Rightarrow> string list" where
  "split_newline [] = [[]]"
| "split_newline (c # cs) =
     (if c = CHR 0x0A then [] # split_newline cs
      else (case split_newline cs of [] \<Rightarrow> [[c]] | l # ls \<Rightarrow> (c # l) # ls))"

text \<open>
  One line of a chunk. \<open>parse\<close> is \<^verbatim>\<open>JSON.parse\<close>, a function of the JavaScript runtime:
  \<open>None\<close> when it throws its SyntaxError. The \<^verbatim>\<open>catch\<close> logs whatever was thrown and
  goes on with the state as it is.
\<close>

definition sendMessage_line :: "(string \<Rightarrow> jsval option) \<Rightarrow> turn \<Rightarrow> string \<Rightarrow> turn" where
  "sendMessage_line parse st line =
     (if prefix ''data: '' line then
        (case parse (drop 6 line) of
           None \<Rightarrow> st
         | Some data \<Rightarrow>
             (case sendMessage_data st data of Inl x \<Rightarrow> st | Inr st' \<Rightarrow> st'))
      else st)"

definition sendMessage_chunk :: "(string \<Rightarrow> jsval option) \<Rightarrow> turn \<Rightarrow> string \<Rightarrow> turn" where
  "sendMessage_chunk parse st chunk = foldl (sendMessage_line parse) st (split_newline chunk)"

definition sendMessage_read_loop ::
  "(string \<Rightarrow> jsval option) \<Rightarrow> turn \<Rightarrow> string list \<Rightarrow> turn" where
  "sendMessage_read_loop parse st chunks = foldl (sendMessage_chunk parse) st chunks"

text \<open>
  How the reads end: the body closes (\<^verbatim>\<open>done\<close> is true), or \<^verbatim>\<open>fetch\<close> or a read rejects
  with an error of the given message, which the outer \<^verbatim>\<open>catch\<close> displays.
\<close>

datatype stream_end = Closed | Failed string

definition sendMessage_stream ::
  "(string \<Rightarrow> jsval option) \<Rightarrow> turn \<Rightarrow> string list \<Rightarrow> stream_end \<Rightarrow> turn" where
  "sendMessage_stream parse st chunks end =
     (let st' = sendMessage_read_loop parse st chunks
      in case end of
           Closed \<Rightarrow> st'\<lparr>entry := removeLoadingIndicator (entry st')\<rparr>
         | Failed msg \<Rightarrow> st'\<lparr>entry := updateMessageContent (entry st') (''Error: '' @ msg)\<rparr>)"

subsection \<open>Envelopes\<close>

text \<open>
  The five kinds of event the server writes, and the object each one decodes to.
\<close>

datatype envelope =
    Content string
  | Tool_start string
  | Tool_end string
  | Done string
  | Error string

fun envelope_json :: "envelope \<Rightarrow> jsval" where
  "envelope_json (Content c) = JObj [(''type'', JStr ''content''), (''content'', JStr c)]"
| "envelope_json (Tool_start t) = JObj [(''type'', JStr ''tool_start''), (''tool'', JStr t)]"
| "envelope_json (Tool_end t) = JObj [(''type'', JStr ''tool_end''), (''tool'', JStr t)]"
| "envelope_json (Done i) = JObj [(''type'', JStr ''done''), (''conversation_id'', JStr i)]"
| "envelope_json (Error m) = JObj [(''type'', JStr ''error''), (''error'', JStr m)]"

text \<open>What the loop does with a line that decodes to the envelope.\<close>

definition apply_envelope :: "turn \<Rightarrow> envelope \<Rightarrow> turn" where
  "apply_envelope st e =
     (case sendMessage_data st (envelope_json e) of Inl x \<Rightarrow> st | Inr st' \<Rightarrow> st')"

definition reduce :: "turn \<Rightarrow> envelope list \<Rightarrow> turn" where
  "reduce st es = foldl apply_envelope st es"

text \<open>
  The state when the loop starts: \<open>addMessage('assistant', '', true)\<close> has created the
  entry with its loading indicator, and \<open>fullContent\<close> is empty.
\<close>

definition pending :: "jsval \<Rightarrow> turn" where
  "pending cid = \<lparr>currentConversationId = cid, fullContent = [], entry = Some [Loading_indicator]\<rparr>"

text \<open>What is seen of an entry: its loading indicator, its badges, its rendered text.\<close>

definition children :: "turn \<Rightarrow> node list" where
  "children st = (case entry st of None \<Rightarrow> [] | Some ns \<Rightarrow> ns)"

definition loading :: "turn \<Rightarrow> bool" where
  "loading st = (Loading_indicator \<in> set (children st))"

fun badge_of :: "node \<Rightarrow> (string \<times> indicator_class) list" where
  "badge_of (Tool_indicator d c x) = [(d, c)]"
| "badge_of n = []"

definition badges :: "turn \<Rightarrow> (string \<times> indicator_class) list" where
  "badges st = concat (map badge_of (children st))"

fun text_of :: "node \<Rightarrow> string list" where
  "text_of (Rendered s) = [s]"
| "text_of n = []"

definition displayed :: "turn \<Rightarrow> string" where
  "displayed st = concat (concat (map text_of (children st)))"

definition badges_for :: "string \<Rightarrow> turn \<Rightarrow> indicator_class list" where
  "badges_for t st = map snd (filter (\<lambda>b. fst b = t) (badges st))"

subsection \<open>A decoder for the examples\<close>

text \<open>
  The statements below hold for every decoder \<open>parse\<close>. Their examples need one that
  computes: \<open>JSON_parse_flat\<close> reads the JSON texts that are a string, \<^verbatim>\<open>null\<close>,
  \<^verbatim>\<open>true\<close>, \<^verbatim>\<open>false\<close>, or an object whose members are such values, with the escapes
  other than \<^verbatim>\<open>\u\<close>; this covers the envelopes. It is applied below only to such texts
  and to texts that are no JSON at all, where \<^verbatim>\<open>JSON.parse\<close> throws and the result here
  is \<open>None\<close>.
\<close>

definition is_ws :: "char \<Rightarrow> bool" where
  "is_ws c = (c = CHR '' '' \<or> c = CHR 0x09 \<or> c = CHR 0x0A \<or> c = CHR 0x0D)"

definition skip_ws :: "string \<Rightarrow> string" where
  "skip_ws s = dropWhile is_ws s"

fun unescape :: "char \<Rightarrow> char option" where
  "unescape c =
     (if c = CHR 0x22 then Some (CHR 0x22)
      else if c = CHR 0x5C then Some (CHR 0x5C)
      else if c = CHR ''/'' then Some (CHR ''/'')
      else if c = CHR ''b'' then Some (CHR 0x08)
      else if c = CHR ''f'' then Some (CHR 0x0C)
      else if c = CHR ''n'' then Some (CHR 0x0A)
      else if c = CHR ''r'' then Some (CHR 0x0D)
      else if c = CHR ''t'' then Some (CHR 0x09)
      else None)"

text \<open>The characters of a string after its opening quote, and the text after its end.\<close>

fun string_body :: "string \<Rightarrow> (string \<times> string) option" where
  "string_body [] = None"
| "string_body [c] = (if c = CHR 0x22 then Some ([], []) else None)"
| "string_body (c # e # cs) =
     (if c = CHR 0x22 then Some ([], e # cs)
      else if c = CHR 0x5C then
        (case unescape e of
           None \<Rightarrow> None
         | Some u \<Rightarrow> map_option (\<lambda>(s, r). (u # s, r)) (string_body cs))
      else if (of_char c :: nat) < 0x20 then None
      else map_option (\<lambda>(s, r). (c # s, r)) (string_body (e # cs)))"

definition scalar :: "string \<Rightarrow> (jsval \<times> string) option" where
  "scalar s =
     (if prefix [CHR 0x22] s then map_option (\<lambda>(x, r). (JStr x, r)) (string_body (drop 1 s))
      else if prefix ''null'' s then Some (JNull, drop 4 s)
      else if prefix ''true'' s then Some (JBool True, drop 4 s)
      else if prefix ''false'' s then Some (JBool False, drop 5 s)
      else None)"

text \<open>
  The members of an object, from its first name on, and the text after the closing
  brace. Every member takes at least one character, so the length of the text bounds
  the number of members: \<open>n\<close> is that bound.
\<close>

fun members :: "nat \<Rightarrow> string \<Rightarrow> ((string \<times> jsval) list \<times> string) option" where
  "members 0 s = None"
| "members (Suc n) s =
     (if prefix [CHR 0x22] s then
        (case string_body (drop 1 s) of
           None \<Rightarrow> None
         | Some (k, r) \<Rightarrow>
             (if prefix '':'' (skip_ws r) then
                (case scalar (skip_ws (drop 1 (skip_ws r))) of
                   None \<Rightarrow> None
                 | Some (v, r') \<Rightarrow>
                     (if prefix '','' (skip_ws r') then
                        map_option (\<lambda>(ms, r''). ((k, v) # ms, r''))
                          (members n (skip_ws (drop 1 (skip_ws r'))))
                      else if prefix ''}'' (skip_ws r') then Some ([(k, v)], drop 1 (skip_ws r'))
                      else None))
              else None))
      else None)"

definition JSON_parse_flat :: "string \<Rightarrow> jsval option" where
  "JSON_parse_flat s =
     (let t = skip_ws s in
      if prefix ''{'' t then
        (if prefix ''}'' (skip_ws (drop 1 t)) then
           (if skip_ws (drop 1 (skip_ws (drop 1 t))) = [] then Some (JObj []) else None)
         else
           (case members (length t) (skip_ws (drop 1 t)) of
              None \<Rightarrow> None
            | Some (ms, r) \<Rightarrow> if skip_ws r = [] then Some (JObj ms) else None))
      else
        (case scalar t of
           None \<Rightarrow> None
         | Some (v, r) \<Rightarrow> if skip_ws r = [] then Some v else None))"

subsection \<open>The wire\<close>

text \<open>
  Modelled from the spec: the producer of the stream (the \<^verbatim>\<open>/chat\<close> endpoint of the
  backend) is not among the sources. The spec gives the wire form of one envelope,
  \<^verbatim>\<open>data: <json>\n\n\<close>, as do the repository's notes on the endpoint; \<open>sse_line p\<close> is
  that text for the JSON text \<open>p\<close>.
\<close>

definition sse_line :: "string \<Rightarrow> string" where
  "sse_line p = ''data: '' @ p @ [CHR 0x0A, CHR 0x0A]"

definition scenario :: "envelope list" where
  "scenario =
     [Tool_start ''search'', Content ''The '', Content ''answer'', Tool_end ''search'',
      Content '' is 42.'', Done ''abc'']"

text \<open>
  What \<open>showToolIndicator\<close> does to tracked children, for a name that is a string
  already and is its own CSS string (lemma \<open>showToolIndicator_JStr\<close> below).
\<close>

definition tool_update :: "node list \<Rightarrow> string \<Rightarrow> bool \<Rightarrow> node list" where
  "tool_update ns t isActive =
     (case querySelector_tool (map of_char t) ns of
        None \<Rightarrow>
          if isActive then
            (if Loading_indicator \<in> set ns
             then insertBefore (Tool_indicator t Active (''Using: '' @ t @ ''...''))
                    Loading_indicator ns
             else Tool_indicator t Active (''Using: '' @ t @ ''...'') # ns)
          else ns
      | Some i \<Rightarrow>
          if isActive then ns else ns[i := complete_indicator t (ns ! i)])"

subsection \<open>The page: sending a turn\<close>

text \<open>
  The globals of the script and the parts of the document that \<open>sendMessage\<close>,
  \<open>addMessage\<close>, \<open>addPdfImages\<close>, \<open>startNewChat\<close>, \<open>handleFileUpload\<close>,
  \<open>removeUploadedFile\<close> and \<open>updateSendButton\<close> read and write. The identifier that
  \<open>addMessage\<close> returns (\<^verbatim>\<open>'msg-' + Date.now()\<close>) depends on the clock and is not
  represented.
\<close>

text \<open>
  An extracted page image. The page number is used only inside template literals, and
  is carried as the text JavaScript prints for it, as the numbers of \<open>jsval\<close> are.
\<close>

record pdf_image =
  img_page :: string
  img_data :: string

record upload =
  filename :: string
  text_content :: string
  images :: "pdf_image list option"

record thumb =
  thumb_src :: string
  thumb_alt :: string
  thumb_title :: string

text \<open>A \<^verbatim>\<open>.pdf-images\<close> element: its \<^verbatim>\<open>img\<close> children and the text of its span, if any.\<close>

record pdf_images_div =
  thumbs :: "thumb list"
  more_span :: "string option"

datatype role = User | Assistant

record message =
  msg_role :: role
  msg_content :: "node list"
  msg_pdf_images :: "pdf_images_div list"

record request =
  req_message :: string
  req_model_id :: jsval
  req_conversation_id :: jsval
  req_web_search_enabled :: bool

text \<open>
  \<open>requests\<close> lists the bodies posted to \<^verbatim>\<open>/chat\<close> so far. \<open>in_flight\<close> counts the calls
  of \<open>sendMessage\<close> that have set \<open>isStreaming\<close> and have not yet run their
  \<^verbatim>\<open>finally\<close> block: the read loops that exist. Both are bookkeeping of the model, not
  variables of the script.
\<close>

record client = session +
  currentModel :: jsval
  uploadedFileData :: "upload option"
  isStreaming :: bool
  message_input :: string
  web_search_toggle :: bool
  welcome_message :: bool
  messages :: "message list"
  send_btn_disabled :: bool
  uploaded_file_shown :: bool
  file_name :: string
  requests :: "request list"
  in_flight :: nat

text \<open>
  \<^verbatim>\<open>String.prototype.trim\<close> removes white space and line terminators at both ends. Among
  the code units below U+0100 these are TAB, LF, VT, FF, CR, the space and the
  no-break space U+00A0.
\<close>

definition is_space :: "char \<Rightarrow> bool" where
  "is_space c =
     (c = CHR 0x09 \<or> c = CHR 0x0A \<or> c = CHR 0x0B \<or> c = CHR 0x0C \<or> c = CHR 0x0D \<or> c = CHR 0x20
      \<or> c = CHR 0xA0)"

definition trim :: "string \<Rightarrow> string" where
  "trim s = rev (dropWhile is_space (rev (dropWhile is_space s)))"

text \<open>
  The decimal text of a natural number. It is what a template literal prints for the
  difference \<^verbatim>\<open>images.length - 5\<close> where that is positive: the length of an array is
  below \<open>2 ^ 32\<close>.
\<close>

definition digit_char :: "nat \<Rightarrow> char" where
  "digit_char d = ''0123456789'' ! d"

fun show_nat :: "nat \<Rightarrow> string" where
  "show_nat n = (if n < 10 then [digit_char n] else show_nat (n div 10) @ [digit_char (n mod 10)])"

declare show_nat.simps [simp del]

definition addMessage :: "role \<Rightarrow> string \<Rightarrow> bool \<Rightarrow> message list \<Rightarrow> message list" where
  "addMessage r content isLoading ms =
     ms @ [\<lparr>msg_role = r,
            msg_content = (if isLoading then [Loading_indicator] else renderMarkdown content),
            msg_pdf_images = []\<rparr>]"

text \<open>
  \<^verbatim>\<open>messagesContainer.querySelector('.message.user:last-of-type')\<close>: the children of the
  container are all \<^verbatim>\<open>div\<close> elements, so only its last child is the last of its type,
  and it is selected when it is a user message.
\<close>

definition lastUserMessage :: "message list \<Rightarrow> nat option" where
  "lastUserMessage ms =
     (if ms \<noteq> [] \<and> msg_role (last ms) = User then Some (length ms - 1) else None)"

definition thumb_of :: "pdf_image \<Rightarrow> thumb" where
  "thumb_of img =
     \<lparr>thumb_src = ''data:image/png;base64,'' @ img_data img,
      thumb_alt = ''Page '' @ img_page img,
      thumb_title = ''Page '' @ img_page img\<rparr>"

definition addPdfImages :: "pdf_image list \<Rightarrow> message list \<Rightarrow> message list" where
  "addPdfImages imgs ms =
     (case lastUserMessage ms of
        None \<Rightarrow> ms
      | Some i \<Rightarrow>
          if length imgs > 0 then
            (let imagesDiv =
               \<lparr>thumbs = map thumb_of (take 5 imgs),
                more_span = (if length imgs > 5
                        then Some (''+'' @ show_nat (length imgs - 5) @ '' more pages'')
                        else None)\<rparr>
             in ms[i := (ms ! i)\<lparr>msg_pdf_images := msg_pdf_images (ms ! i) @ [imagesDiv]\<rparr>])
          else ms)"

definition removeUploadedFile :: "client \<Rightarrow> client" where
  "removeUploadedFile c = c\<lparr>uploadedFileData := None, uploaded_file_shown := False, file_name := []\<rparr>"

definition updateSendButton :: "client \<Rightarrow> client" where
  "updateSendButton c = c\<lparr>send_btn_disabled := isStreaming c\<rparr>"

text \<open>
  The text posted for a turn: the trimmed input, wrapped in the upload template when a
  file is pending.
\<close>

definition fullMessage :: "upload option \<Rightarrow> string \<Rightarrow> string" where
  "fullMessage u message =
     (case u of
        None \<Rightarrow> message
      | Some f \<Rightarrow>
          ''[Uploaded PDF: '' @ filename f @ '']'' @ [CHR 0x0A, CHR 0x0A] @ ''Text content:''
            @ [CHR 0x0A] @ text_content f @ [CHR 0x0A, CHR 0x0A] @ ''---'' @ [CHR 0x0A, CHR 0x0A]
            @ ''User message: '' @ message)"

text \<open>
  \<open>sendMessage\<close> from its first line to the call of \<^verbatim>\<open>fetch\<close>: nothing in between
  awaits, so no other handler runs in between.
\<close>

definition sendMessage_begin :: "client \<Rightarrow> client" where
  "sendMessage_begin c =
     (let message = trim (message_input c) in
      if message = [] \<and> uploadedFileData c = None then c
      else if isStreaming c then c
      else
        (let webSearchEnabled = web_search_toggle c;
             shown = (if message \<noteq> [] then message
                      else (case uploadedFileData c of
                              None \<Rightarrow> []
                            | Some f \<Rightarrow> ''[Uploaded PDF: '' @ filename f @ '']''));
             ms1 = addMessage User shown False (messages c);
             ms2 = (case uploadedFileData c of
                      None \<Rightarrow> ms1
                    | Some f \<Rightarrow>
                        (case images f of
                           None \<Rightarrow> ms1
                         | Some imgs \<Rightarrow> if length imgs > 0 then addPdfImages imgs ms1 else ms1));
             ms3 = addMessage Assistant [] True ms2
         in updateSendButton
              (c\<lparr>message_input := [], welcome_message := False, messages := ms3,
                 isStreaming := True,
                 requests := requests c @
                   [\<lparr>req_message = fullMessage (uploadedFileData c) message,
                     req_model_id = currentModel c,
                     req_conversation_id = currentConversationId c,
                     req_web_search_enabled = webSearchEnabled\<rparr>],
                 in_flight := Suc (in_flight c)\<rparr>)))"

text \<open>The \<^verbatim>\<open>finally\<close> block of a call that has passed the two guards.\<close>

definition sendMessage_finally :: "client \<Rightarrow> client" where
  "sendMessage_finally c =
     (let c1 = updateSendButton (c\<lparr>isStreaming := False, in_flight := in_flight c - 1\<rparr>);
          c2 = c1\<lparr>uploadedFileData := None\<rparr>
      in removeUploadedFile c2)"

definition startNewChat :: "client \<Rightarrow> client" where
  "startNewChat c =
     removeUploadedFile
       (c\<lparr>currentConversationId := JNull, uploadedFileData := None, messages := [],
          welcome_message := True\<rparr>)"

text \<open>
  What can happen to the page between two awaits: a call of \<open>sendMessage\<close> (button or
  Enter key), the end of a call in flight, a new chat, an upload that succeeded or
  failed, the removal of the pending file, typing, the web-search toggle, the model
  selector, and a \<open>done\<close> envelope read by a call in flight.
\<close>

datatype client_op =
    Send
  | Finish
  | New_chat
  | Upload_succeeded upload
  | Upload_failed
  | Remove_file
  | Type string
  | Toggle_web_search bool
  | Select_model jsval
  | Read_done jsval

fun client_step :: "client \<Rightarrow> client_op \<Rightarrow> client" where
  "client_step c Send = sendMessage_begin c"
| "client_step c Finish = (if in_flight c = 0 then c else sendMessage_finally c)"
| "client_step c New_chat = startNewChat c"
| "client_step c (Upload_succeeded f) =
     c\<lparr>uploadedFileData := Some f, uploaded_file_shown := True, file_name := filename f\<rparr>"
| "client_step c Upload_failed = removeUploadedFile (c\<lparr>uploaded_file_shown := True\<rparr>)"
| "client_step c Remove_file = removeUploadedFile c"
| "client_step c (Type s) = c\<lparr>message_input := s\<rparr>"
| "client_step c (Toggle_web_search b) = c\<lparr>web_search_toggle := b\<rparr>"
| "client_step c (Select_model m) = c\<lparr>currentModel := m\<rparr>"
| "client_step c (Read_done i) = (if in_flight c = 0 then c else c\<lparr>currentConversationId := i\<rparr>)"

text \<open>The page when the script has loaded.\<close>

definition initial_client :: "jsval \<Rightarrow> client" where
  "initial_client m =
     \<lparr>currentConversationId = JNull, currentModel = m, uploadedFileData = None,
      isStreaming = False, message_input = [], web_search_toggle = False,
      welcome_message = True, messages = [], send_btn_disabled = False,
      uploaded_file_shown = False, file_name = [], requests = [], in_flight = 0\<rparr>"

text \<open>One read loop at most: there is a call in flight exactly when the flag is set.\<close>

definition single_flight :: "client \<Rightarrow> bool" where
  "single_flight c = (in_flight c = (if isStreaming c then 1 else 0))"




subsection \<open>Sequences of envelopes\<close>

text \<open>The texts of the content envelopes of a sequence, in order.\<close>

fun content_of :: "envelope \<Rightarrow> string list" where
  "content_of (Content c) = [c]"
| "content_of e = []"

definition contents :: "envelope list \<Rightarrow> string list" where
  "contents es = concat (map content_of es)"

text \<open>The identifier of the last \<open>done\<close> envelope of a sequence, if there is one.\<close>

fun last_done :: "envelope list \<Rightarrow> string option" where
  "last_done [] = None"
| "last_done (Done i # es) = (case last_done es of None \<Rightarrow> Some i | Some j \<Rightarrow> Some j)"
| "last_done (e # es) = last_done es"

text \<open>
  An envelope that keeps the children of the entry tracked: its text is inert, its tool
  name is its own CSS string.
\<close>

fun tame_envelope :: "envelope \<Rightarrow> bool" where
  "tame_envelope (Content c) = inert c"
| "tame_envelope (Tool_start t) = plain_name t"
| "tame_envelope (Tool_end t) = plain_name t"
| "tame_envelope (Done i) = True"
| "tame_envelope (Error m) = inert m"

fun is_error :: "envelope \<Rightarrow> bool" where
  "is_error (Error m) = True"
| "is_error e = False"

text \<open>The envelopes of a turn that ends without an error.\<close>

definition orderly :: "envelope \<Rightarrow> bool" where
  "orderly e = (tame_envelope e \<and> \<not> is_error e)"

definition tracked_entry :: "turn \<Rightarrow> bool" where
  "tracked_entry st = (case entry st of None \<Rightarrow> True | Some ns \<Rightarrow> tracked ns)"

text \<open>
  The entry exists, is tracked, and shows exactly the accumulated text, which is inert.
\<close>

definition shows_text :: "turn \<Rightarrow> bool" where
  "shows_text st =
     (entry st \<noteq> None \<and> tracked_entry st \<and> inert (fullContent st)
      \<and> displayed st = fullContent st)"


text \<open>
  No chunk boundary falls inside a line: each chunk is empty, or ends with a line feed,
  or is followed by nothing, or by a line feed.
\<close>

fun whole_lines :: "string list \<Rightarrow> bool" where
  "whole_lines [] = True"
| "whole_lines (a # cs) =
     ((a = [] \<or> last a = CHR 0x0A \<or> concat cs = [] \<or> hd (concat cs) = CHR 0x0A)
      \<and> whole_lines cs)"

subsection \<open>Inputs of the examples\<close>

text \<open>One content envelope in one chunk, and the same bytes cut inside the line.\<close>

definition whole_chunk :: string where
  \<open>whole_chunk = ''data: {"type": "content", "content": "Hi"}\<newline>\<newline>''\<close>

definition cut_chunks :: "string list" where
  \<open>cut_chunks = [''data: {"type": "con'', ''tent", "content": "Hi"}\<newline>\<newline>'']\<close>

text \<open>
  A turn of four envelopes, cut just before the line feed that ends the first line,
  between the two line feeds after the second, and after the third envelope.
\<close>

definition turn_lines :: "(string \<times> envelope) list" where
  \<open>turn_lines =
     [(''{"type": "content", "content": "Hel"}'', Content ''Hel''),
      (''{"type": "tool_start", "tool": "search"}'', Tool_start ''search''),
      (''{"type": "content", "content": "lo"}'', Content ''lo''),
      (''{"type": "done", "conversation_id": "abc"}'', Done ''abc'')]\<close>

definition turn_chunks :: "string list" where
  \<open>turn_chunks =
     [''data: {"type": "content", "content": "Hel"}'',
      ''\<newline>\<newline>data: {"type": "tool_start", "tool": "search"}\<newline>'',
      ''\<newline>data: {"type": "content", "content": "lo"}\<newline>\<newline>'',
      ''data: {"type": "done", "conversation_id": "abc"}\<newline>\<newline>'']\<close>



text \<open>A page on which a turn is streaming and the user has typed again.\<close>

definition streaming_client :: client where
  "streaming_client =
     (sendMessage_begin ((initial_client (JStr ''m''))\<lparr>message_input := ''hi''\<rparr>))
       \<lparr>message_input := ''again''\<rparr>"




text \<open>An entry with an active badge, and an entry that shows rendered text.\<close>

definition searching :: turn where
  "searching = apply_envelope (pending JNull) (Tool_start ''search'')"

definition answering :: turn where
  "answering = apply_envelope (pending JNull) (Content ''Hi'')"

section \<open>Properties\<close>

subsection \<open>The selector of a plain name\<close>

lemma css_string_plain: "plain_name t \<Longrightarrow> css_string t = Attr_equal (map of_char t)"
  by (induction t) (auto simp: css_string.simps plain_name_def css_newline_def cp_of_def)

lemma map_of_char_eq: "(map of_char d :: nat list) = map of_char t \<longleftrightarrow> d = t"
  by (rule inj_map_eq_map [OF inj_of_char])



subsection \<open>One envelope\<close>

lemma apply_envelope_Content:
  "apply_envelope st (Content c) =
     st\<lparr>fullContent := fullContent st @ c,
        entry := updateMessageContent (entry st) (fullContent st @ c)\<rparr>"
  by (simp add: apply_envelope_def sendMessage_data_def Let_def)

lemma apply_envelope_Done:
  "apply_envelope st (Done i) = st\<lparr>currentConversationId := JStr i\<rparr>"
  by (simp add: apply_envelope_def sendMessage_data_def)

lemma apply_envelope_Error:
  "apply_envelope st (Error m) = st\<lparr>entry := updateMessageContent (entry st) (''Error: '' @ m)\<rparr>"
  by (simp add: apply_envelope_def sendMessage_data_def)

lemma showToolIndicator_JStr:
  assumes "plain_name t" and "case e of None \<Rightarrow> True | Some ns \<Rightarrow> tracked ns"
  shows "showToolIndicator e (JStr t) b = Inr (map_option (\<lambda>ns. tool_update ns t b) e)"
proof (cases e)
  case None
  then show ?thesis by (simp add: showToolIndicator_def)
next
  case (Some ns)
  with assms(2) have "tracked ns" by simp
  with Some show ?thesis
    by (simp add: showToolIndicator_def tool_update_def css_string_plain [OF assms(1)] Let_def
        split: option.splits)
qed

lemma sendMessage_data_Tool_start:
  assumes "plain_name t" and "tracked_entry st"
  shows "sendMessage_data st (envelope_json (Tool_start t)) =
     Inr (st\<lparr>entry := map_option (\<lambda>ns. tool_update ns t True) (entry st)\<rparr>)"
  using assms
  by (simp add: sendMessage_data_def showToolIndicator_JStr tracked_entry_def)

lemma sendMessage_data_Tool_end:
  assumes "plain_name t" and "tracked_entry st"
  shows "sendMessage_data st (envelope_json (Tool_end t)) =
     Inr (st\<lparr>entry := map_option (\<lambda>ns. tool_update ns t False) (entry st)\<rparr>)"
  using assms
  by (simp add: sendMessage_data_def showToolIndicator_JStr tracked_entry_def)

lemma apply_envelope_Tool_start:
  assumes "plain_name t" and "tracked_entry st"
  shows "apply_envelope st (Tool_start t) =
     st\<lparr>entry := map_option (\<lambda>ns. tool_update ns t True) (entry st)\<rparr>"
  by (simp only: apply_envelope_def sendMessage_data_Tool_start [OF assms] sum.case)

lemma apply_envelope_Tool_end:
  assumes "plain_name t" and "tracked_entry st"
  shows "apply_envelope st (Tool_end t) =
     st\<lparr>entry := map_option (\<lambda>ns. tool_update ns t False) (entry st)\<rparr>"
  by (simp only: apply_envelope_def sendMessage_data_Tool_end [OF assms] sum.case)

lemmas apply_envelope_simps = apply_envelope_Content apply_envelope_Done apply_envelope_Error
  apply_envelope_Tool_start apply_envelope_Tool_end


lemma apply_envelope_tool_frame:
  "fullContent (apply_envelope st (Tool_start t)) = fullContent st
   \<and> currentConversationId (apply_envelope st (Tool_start t)) = currentConversationId st
   \<and> fullContent (apply_envelope st (Tool_end t)) = fullContent st
   \<and> currentConversationId (apply_envelope st (Tool_end t)) = currentConversationId st"
  by (simp add: apply_envelope_def sendMessage_data_def split: sum.splits)

lemma badges_entry: "entry st = Some ns \<Longrightarrow> badges st = concat (map badge_of ns)"
  by (simp add: badges_def children_def)


lemma querySelector_tool_None:
  "querySelector_tool (map of_char t) ns = None
   \<longleftrightarrow> filter (\<lambda>b. fst b = t) (concat (map badge_of ns)) = []"
proof (induction ns)
  case Nil
  show ?case by simp
next
  case (Cons n ns)
  then show ?case by (cases n) (auto simp: map_of_char_eq)
qed





lemma tool_update_end_absent:
  "querySelector_tool (map of_char t) ns = None \<Longrightarrow> tool_update ns t False = ns"
  by (simp add: tool_update_def)

lemma reduce_append: "reduce st (es @ fs) = reduce (reduce st es) fs"
  by (simp add: reduce_def)

lemma reduce_Cons: "reduce st (e # es) = reduce (apply_envelope st e) es"
  by (simp add: reduce_def)

lemma reduce_Nil: "reduce st [] = st"
  by (simp add: reduce_def)

subsection \<open>Tracked children stay tracked\<close>

lemma tracked_insertBefore:
  "tracked ns \<Longrightarrow> tracked_node new \<Longrightarrow> tracked (insertBefore new ref ns)"
  by (induction ns) (auto simp: tracked_def)

lemma querySelector_tool_Some:
  "querySelector_tool v ns = Some i \<Longrightarrow> i < length ns \<and> is_tool_indicator v (ns ! i)"
proof (induction ns arbitrary: i)
  case Nil
  then show ?case by simp
next
  case (Cons n ns)
  then show ?case by (auto split: if_splits)
qed

lemma tracked_complete:
  "tracked ns \<Longrightarrow> tracked (ns[i := complete_indicator t (ns ! i)])"
proof (induction ns arbitrary: i)
  case Nil
  then show ?case by simp
next
  case (Cons n ns)
  show ?case
  proof (cases i)
    case 0
    with Cons.prems show ?thesis by (cases n) (simp_all add: tracked_def)
  next
    case (Suc j)
    with Cons show ?thesis by (simp add: tracked_def)
  qed
qed

lemma tracked_tool_update: "tracked ns \<Longrightarrow> tracked (tool_update ns t b)"
  by (auto simp: tool_update_def tracked_insertBefore tracked_complete split: option.splits)
    (simp add: tracked_def)

lemma tracked_renderMarkdown: "inert s \<Longrightarrow> tracked (renderMarkdown s)"
  by (simp add: renderMarkdown_def tracked_def)

lemma inert_append: "inert (a @ b) \<longleftrightarrow> inert a \<and> inert b"
  by (auto simp: inert_def)




subsection \<open>At most one badge for a tool\<close>


lemma insertBefore_split:
  "\<exists>ys zs. ns = ys @ zs \<and> insertBefore new ref ns = ys @ new # zs"
proof (induction ns)
  case Nil
  show ?case by simp
next
  case (Cons n ns)
  show ?case
  proof (cases "n = ref")
    case True
    then have "n # ns = [] @ (n # ns) \<and> insertBefore new ref (n # ns) = [] @ new # (n # ns)"
      by simp
    then show ?thesis by blast
  next
    case False
    from Cons obtain ys zs where "ns = ys @ zs" "insertBefore new ref ns = ys @ new # zs"
      by blast
    with False have "n # ns = (n # ys) @ zs \<and> insertBefore new ref (n # ns) = (n # ys) @ new # zs"
      by simp
    then show ?thesis by blast
  qed
qed








lemma apply_envelope_tool_entry:
  "entry (apply_envelope st (Tool_start t)) =
     (case showToolIndicator (entry st) (JStr t) True of Inl x \<Rightarrow> entry st | Inr e \<Rightarrow> e)"
  "entry (apply_envelope st (Tool_end t)) =
     (case showToolIndicator (entry st) (JStr t) False of Inl x \<Rightarrow> entry st | Inr e \<Rightarrow> e)"
  by (simp_all add: apply_envelope_def sendMessage_data_def split: sum.splits)



subsection \<open>Text and session identifier of a sequence\<close>

lemma fullContent_apply:
  "fullContent (apply_envelope st e) = fullContent st @ concat (content_of e)"
  by (cases e) (simp_all add: apply_envelope_Content apply_envelope_Done apply_envelope_Error
      apply_envelope_tool_frame)

lemma fullContent_reduce:
  "fullContent (reduce st es) = fullContent st @ concat (contents es)"
proof (induction es arbitrary: st)
  case Nil
  show ?case by (simp add: reduce_Nil contents_def)
next
  case (Cons e es)
  then show ?case by (simp add: reduce_Cons fullContent_apply contents_def)
qed

lemma conversation_apply:
  "currentConversationId (apply_envelope st e) =
     (case last_done [e] of None \<Rightarrow> currentConversationId st | Some j \<Rightarrow> JStr j)"
  by (cases e) (simp_all add: apply_envelope_Content apply_envelope_Done apply_envelope_Error
      apply_envelope_tool_frame)

lemma conversation_reduce:
  "currentConversationId (reduce st es) =
     (case last_done es of None \<Rightarrow> currentConversationId st | Some j \<Rightarrow> JStr j)"
proof (induction es arbitrary: st)
  case Nil
  show ?case by (simp add: reduce_Nil)
next
  case (Cons e es)
  then show ?case
    by (cases e) (simp_all add: reduce_Cons conversation_apply split: option.splits)
qed

text \<open>
  The step reads the entry and the accumulated text only: two states that agree on
  them agree on them after every envelope.
\<close>

lemma apply_envelope_same_entry:
  assumes "entry s = entry s'" and "fullContent s = fullContent s'"
  shows "entry (apply_envelope s e) = entry (apply_envelope s' e)
       \<and> fullContent (apply_envelope s e) = fullContent (apply_envelope s' e)"
proof (cases e)
  case (Content c)
  with assms show ?thesis by (simp add: apply_envelope_Content)
next
  case (Tool_start t)
  with assms show ?thesis
    by (cases "showToolIndicator (entry s') (JStr t) True")
      (simp_all add: apply_envelope_tool_entry apply_envelope_tool_frame)
next
  case (Tool_end t)
  with assms show ?thesis
    by (cases "showToolIndicator (entry s') (JStr t) False")
      (simp_all add: apply_envelope_tool_entry apply_envelope_tool_frame)
next
  case (Done i)
  with assms show ?thesis by (simp add: apply_envelope_Done)
next
  case (Error m)
  with assms show ?thesis by (simp add: apply_envelope_Error)
qed

lemma reduce_same_entry:
  assumes "entry s = entry s'" and "fullContent s = fullContent s'"
  shows "entry (reduce s es) = entry (reduce s' es)"
  using assms
proof (induction es arbitrary: s s')
  case Nil
  then show ?case by (simp add: reduce_Nil)
next
  case (Cons e es)
  from Cons.prems have step: "entry (apply_envelope s e) = entry (apply_envelope s' e)
       \<and> fullContent (apply_envelope s e) = fullContent (apply_envelope s' e)"
    by (rule apply_envelope_same_entry)
  have "entry (reduce (apply_envelope s e) es) = entry (reduce (apply_envelope s' e) es)"
    by (rule Cons.IH) (simp_all only: step)
  then show ?case by (simp only: reduce_Cons)
qed

subsection \<open>The text that an entry shows\<close>

lemma texts_insertBefore:
  "concat (map text_of (insertBefore (Tool_indicator t c x) ref ns)) = concat (map text_of ns)"
proof -
  obtain ys zs where "ns = ys @ zs"
      "insertBefore (Tool_indicator t c x) ref ns = ys @ Tool_indicator t c x # zs"
    using insertBefore_split by blast
  then show ?thesis by simp
qed

lemma texts_complete:
  "concat (map text_of (ns[i := complete_indicator t (ns ! i)])) = concat (map text_of ns)"
proof (induction ns arbitrary: i)
  case Nil
  show ?case by simp
next
  case (Cons n ns)
  show ?case
  proof (cases i)
    case 0
    then show ?thesis by (cases n) simp_all
  next
    case (Suc j)
    with Cons show ?thesis by simp
  qed
qed

lemma texts_tool_update: "concat (map text_of (tool_update ns t b)) = concat (map text_of ns)"
  by (simp add: tool_update_def texts_insertBefore texts_complete split: option.splits)

lemma texts_remove1:
  "concat (map text_of (remove1 Loading_indicator ns)) = concat (map text_of ns)"
  by (induction ns) auto

lemma displayed_entry: "entry st = Some ns \<Longrightarrow> displayed st = concat (concat (map text_of ns))"
  by (simp add: displayed_def children_def)

lemma shows_text_apply:
  assumes "orderly e" and "shows_text st"
  shows "shows_text (apply_envelope st e)"
proof -
  from assms(2) obtain ns where ns: "entry st = Some ns" "tracked ns"
      "inert (fullContent st)" "concat (concat (map text_of ns)) = fullContent st"
    by (auto simp: shows_text_def tracked_entry_def displayed_entry)
  then have tr: "tracked_entry st" by (simp add: tracked_entry_def)
  show ?thesis
  proof (cases e)
    case (Content c)
    with assms(1) have "inert c" by (simp add: orderly_def)
    with ns Content show ?thesis
      by (simp add: shows_text_def apply_envelope_Content updateMessageContent_def
          tracked_entry_def displayed_entry tracked_renderMarkdown inert_append)
        (simp add: renderMarkdown_def)
  next
    case (Tool_start t)
    with assms(1) have "plain_name t" by (simp add: orderly_def)
    with ns tr Tool_start show ?thesis
      by (simp add: shows_text_def apply_envelope_Tool_start tracked_entry_def displayed_entry
          tracked_tool_update texts_tool_update)
  next
    case (Tool_end t)
    with assms(1) have "plain_name t" by (simp add: orderly_def)
    with ns tr Tool_end show ?thesis
      by (simp add: shows_text_def apply_envelope_Tool_end tracked_entry_def displayed_entry
          tracked_tool_update texts_tool_update)
  next
    case (Done i)
    with ns show ?thesis
      by (simp add: shows_text_def apply_envelope_Done tracked_entry_def displayed_entry)
  next
    case (Error m)
    with assms(1) show ?thesis by (simp add: orderly_def)
  qed
qed

lemma shows_text_reduce:
  assumes "list_all orderly es" and "shows_text st"
  shows "shows_text (reduce st es)"
  using assms
proof (induction es arbitrary: st)
  case Nil
  then show ?case by (simp add: reduce_Nil)
next
  case (Cons e es)
  from Cons.prems have "shows_text (apply_envelope st e)"
    using shows_text_apply [of e st] by simp
  moreover from Cons.prems have "list_all orderly es" by simp
  ultimately have "shows_text (reduce (apply_envelope st e) es)" by (rule Cons.IH [rotated])
  then show ?case by (simp only: reduce_Cons)
qed

lemma shows_text_pending: "shows_text (pending cid)"
  by (simp add: shows_text_def pending_def tracked_entry_def tracked_def inert_def
      displayed_def children_def)

lemma shows_text_closed:
  assumes "shows_text st"
  shows "displayed (st\<lparr>entry := removeLoadingIndicator (entry st)\<rparr>) = fullContent st"
proof -
  from assms obtain ns where ns: "entry st = Some ns" "tracked ns"
      "concat (concat (map text_of ns)) = fullContent st"
    by (auto simp: shows_text_def tracked_entry_def displayed_entry)
  then show ?thesis
    by (simp add: removeLoadingIndicator_def displayed_def children_def texts_remove1)
qed

subsection \<open>Lines and chunks\<close>

lemma split_newline_not_Nil: "split_newline s \<noteq> []"
  by (induction s) (auto split: list.splits)

lemma split_newline_no_newline: "CHR 0x0A \<notin> set s \<Longrightarrow> split_newline s = [s]"
  by (induction s) auto

lemma split_newline_append:
  "split_newline (a @ CHR 0x0A # b) = split_newline a @ split_newline b"
proof (induction a)
  case Nil
  show ?case by simp
next
  case (Cons c a)
  then show ?case
    using split_newline_not_Nil [of a] by (simp split: list.splits)
qed

lemma sendMessage_line_empty: "sendMessage_line parse st [] = st"
  by (simp add: sendMessage_line_def)

lemma sendMessage_chunk_empty: "sendMessage_chunk parse st [] = st"
  by (simp add: sendMessage_chunk_def sendMessage_line_empty)

lemma sendMessage_chunk_newline:
  "sendMessage_chunk parse st (a @ CHR 0x0A # b) =
   sendMessage_chunk parse (foldl (sendMessage_line parse) st (split_newline a)) b"
  by (simp add: sendMessage_chunk_def split_newline_append)

lemma sendMessage_chunk_after_newline:
  assumes "a = [] \<or> last a = CHR 0x0A"
  shows "sendMessage_chunk parse (sendMessage_chunk parse st a) b = sendMessage_chunk parse st (a @ b)"
proof (cases "a = []")
  case True
  then show ?thesis by (simp add: sendMessage_chunk_empty)
next
  case False
  with assms obtain a' where a: "a = a' @ [CHR 0x0A]"
    by (metis append_butlast_last_id)
  have "sendMessage_chunk parse st (a' @ CHR 0x0A # []) =
        foldl (sendMessage_line parse) st (split_newline a')"
    by (simp only: sendMessage_chunk_newline sendMessage_chunk_empty)
  moreover have "sendMessage_chunk parse st (a' @ CHR 0x0A # b) =
        sendMessage_chunk parse (foldl (sendMessage_line parse) st (split_newline a')) b"
    by (rule sendMessage_chunk_newline)
  ultimately show ?thesis by (simp add: a)
qed

lemma sendMessage_chunk_before_newline:
  assumes "b = [] \<or> hd b = CHR 0x0A"
  shows "sendMessage_chunk parse (sendMessage_chunk parse st a) b = sendMessage_chunk parse st (a @ b)"
proof (cases b)
  case Nil
  then show ?thesis by (simp add: sendMessage_chunk_empty)
next
  case (Cons c b')
  with assms have b: "b = CHR 0x0A # b'" by simp
  have "sendMessage_chunk parse (sendMessage_chunk parse st a) ([] @ CHR 0x0A # b') =
        sendMessage_chunk parse (sendMessage_chunk parse st a) b'"
    by (simp only: sendMessage_chunk_newline) (simp add: sendMessage_line_empty)
  moreover have "sendMessage_chunk parse st (a @ CHR 0x0A # b') =
        sendMessage_chunk parse (sendMessage_chunk parse st a) b'"
    by (simp only: sendMessage_chunk_newline) (simp add: sendMessage_chunk_def)
  ultimately show ?thesis by (simp add: b)
qed

lemma read_loop_whole_lines:
  "whole_lines chunks \<Longrightarrow>
   sendMessage_read_loop parse st chunks = sendMessage_chunk parse st (concat chunks)"
proof (induction chunks arbitrary: st)
  case Nil
  show ?case by (simp add: sendMessage_read_loop_def sendMessage_chunk_empty)
next
  case (Cons a chunks)
  then have ih: "sendMessage_read_loop parse (sendMessage_chunk parse st a) chunks =
      sendMessage_chunk parse (sendMessage_chunk parse st a) (concat chunks)"
    by simp
  from Cons.prems have "(a = [] \<or> last a = CHR 0x0A)
      \<or> (concat chunks = [] \<or> hd (concat chunks) = CHR 0x0A)"
    by auto
  then have "sendMessage_chunk parse (sendMessage_chunk parse st a) (concat chunks) =
      sendMessage_chunk parse st (a @ concat chunks)"
    using sendMessage_chunk_after_newline [of a parse st "concat chunks"]
      sendMessage_chunk_before_newline [of "concat chunks" parse st a]
    by blast
  with ih show ?case by (simp add: sendMessage_read_loop_def)
qed

lemma sendMessage_line_envelope:
  "parse p = Some (envelope_json e) \<Longrightarrow>
   sendMessage_line parse st (''data: '' @ p) = apply_envelope st e"
  by (simp add: sendMessage_line_def apply_envelope_def)

lemma sendMessage_chunk_sse_line:
  assumes "parse p = Some (envelope_json e)" and "CHR 0x0A \<notin> set p"
  shows "sendMessage_chunk parse st (sse_line p @ rest) =
         sendMessage_chunk parse (apply_envelope st e) rest"
proof -
  have nl: "CHR 0x0A \<notin> set (''data: '' @ p)" using assms(2) by simp
  have "sse_line p @ rest = (''data: '' @ p) @ CHR 0x0A # ([] @ CHR 0x0A # rest)"
    by (simp add: sse_line_def)
  then have "sendMessage_chunk parse st (sse_line p @ rest) =
      sendMessage_chunk parse (foldl (sendMessage_line parse) st (split_newline (''data: '' @ p)))
        ([] @ CHR 0x0A # rest)"
    by (simp only: sendMessage_chunk_newline)
  also have "\<dots> = sendMessage_chunk parse (sendMessage_line parse st (''data: '' @ p)) ([] @ CHR 0x0A # rest)"
    by (simp only: split_newline_no_newline [OF nl]) simp
  also have "\<dots> = sendMessage_chunk parse (sendMessage_line parse st (''data: '' @ p)) rest"
    by (simp only: sendMessage_chunk_newline) (simp add: sendMessage_line_empty)
  finally show ?thesis using sendMessage_line_envelope [of parse p e st] assms(1) by simp
qed

lemma sendMessage_chunk_wire:
  "\<forall>(p, e) \<in> set pes. parse p = Some (envelope_json e) \<and> CHR 0x0A \<notin> set p \<Longrightarrow>
   sendMessage_chunk parse st (concat (map (\<lambda>(p, e). sse_line p) pes)) = reduce st (map snd pes)"
proof (induction pes arbitrary: st)
  case Nil
  show ?case by (simp add: sendMessage_chunk_empty reduce_def)
next
  case (Cons pe pes)
  obtain p e where pe: "pe = (p, e)" by (cases pe)
  with Cons.prems have dec: "parse p = Some (envelope_json e)" and nl: "CHR 0x0A \<notin> set p"
    by simp_all
  from Cons have "sendMessage_chunk parse (apply_envelope st e) (concat (map (\<lambda>(p, e). sse_line p) pes))
      = reduce (apply_envelope st e) (map snd pes)"
    by simp
  then show ?case
    using sendMessage_chunk_sse_line [of parse p e st] dec nl by (simp add: pe reduce_def)
qed

lemmas decoder_defs = JSON_parse_flat_def skip_ws_def is_ws_def scalar_def
lemmas loop_defs = sendMessage_stream_def sendMessage_read_loop_def sendMessage_chunk_def
  sendMessage_line_def sendMessage_data_def updateMessageContent_def renderMarkdown_def
  removeLoadingIndicator_def pending_def

subsection \<open>The page\<close>

lemma sendMessage_begin_streaming: "isStreaming c \<Longrightarrow> sendMessage_begin c = c"
  by (simp add: sendMessage_begin_def Let_def)

lemma single_flight_step: "single_flight c \<Longrightarrow> single_flight (client_step c op)"
proof (cases op)
  case Send
  then show "single_flight c \<Longrightarrow> single_flight (client_step c op)"
    by (simp add: single_flight_def sendMessage_begin_def updateSendButton_def Let_def
        split: if_splits)
next
  case Finish
  then show "single_flight c \<Longrightarrow> single_flight (client_step c op)"
    by (simp add: single_flight_def sendMessage_finally_def updateSendButton_def
        removeUploadedFile_def Let_def split: if_splits)
qed (simp_all add: single_flight_def startNewChat_def removeUploadedFile_def)

lemma single_flight_reachable: "single_flight (foldl client_step (initial_client m) ops)"
proof (induction ops rule: rev_induct)
  case Nil
  show ?case by (simp add: single_flight_def initial_client_def)
next
  case (snoc op ops)
  then show ?case by (simp add: single_flight_step)
qed



subsection \<open>The scenario and the duplicate start\<close>

lemma plain_search: "plain_name ''search''"
  by (simp add: plain_name_def)

lemma searching_state:
  "searching = \<lparr>currentConversationId = JNull, fullContent = [],
       entry = Some [Tool_indicator ''search'' Active ''Using: search...'', Loading_indicator]\<rparr>"
  by (simp add: searching_def pending_def apply_envelope_Tool_start [OF plain_search]
      tracked_entry_def tracked_def tool_update_def)

lemma scenario_state: "reduce (pending JNull) scenario =
     \<lparr>currentConversationId = JStr ''abc'', fullContent = ''The answer is 42.'',
      entry = Some [Rendered ''The answer is 42.'']\<rparr>"
proof -
  have 1: "apply_envelope (pending JNull) (Tool_start ''search'') = searching"
    by (simp add: searching_def)
  have 2: "apply_envelope (apply_envelope searching (Content ''The '')) (Content ''answer'') =
      \<lparr>currentConversationId = JNull, fullContent = ''The answer'',
       entry = Some [Rendered ''The answer'']\<rparr>"
    by (simp add: searching_state apply_envelope_Content updateMessageContent_def
        renderMarkdown_def)
  have 3: "apply_envelope \<lparr>currentConversationId = JNull, fullContent = ''The answer'',
       entry = Some [Rendered ''The answer'']\<rparr> (Tool_end ''search'') =
      \<lparr>currentConversationId = JNull, fullContent = ''The answer'',
       entry = Some [Rendered ''The answer'']\<rparr>"
    by (simp add: apply_envelope_Tool_end [OF plain_search] tracked_entry_def tracked_def
        inert_def tool_update_def)
  show ?thesis
    by (simp add: reduce_def scenario_def 1 2 3)
      (simp add: apply_envelope_Content apply_envelope_Done updateMessageContent_def
        renderMarkdown_def)
qed



section \<open>The claims\<close>

subsection \<open>C1: chunk boundaries\<close>

text \<open>
  C1, as stated, fails. The same bytes give the text \<open>Hi\<close> when they arrive as one chunk
  and the empty text when the chunk boundary falls inside the \<^verbatim>\<open>data:\<close> line: the loop
  splits each chunk by itself, the first piece fails to decode and the second does not
  start with \<^verbatim>\<open>data: \<close>, so both are skipped.
\<close>

theorem cut_line_loses_content:
  "concat cut_chunks = concat [whole_chunk]
   \<and> fullContent (sendMessage_stream JSON_parse_flat (pending JNull) [whole_chunk] Closed) = ''Hi''
   \<and> fullContent (sendMessage_stream JSON_parse_flat (pending JNull) cut_chunks Closed) = []
   \<and> displayed (sendMessage_stream JSON_parse_flat (pending JNull) [whole_chunk] Closed) = ''Hi''
   \<and> displayed (sendMessage_stream JSON_parse_flat (pending JNull) cut_chunks Closed) = []"
  by (simp add: whole_chunk_def cut_chunks_def loop_defs decoder_defs displayed_def children_def
      tracked_def inert_def Let_def)

text \<open>
  C1, amended. Let the wire carry the envelopes of a turn, of any kinds, each as one line
  \<^verbatim>\<open>data: <json>\<close> followed by an empty line, where the decoder maps each JSON text to its
  envelope. If no chunk boundary falls inside a line (each chunk is empty, ends with a
  line feed, or is followed by a line feed or by nothing), then the read loop ends in
  the state that reducing the envelopes gives, and so does it for every other such
  chunking of the same bytes. The accumulated text is then the text before the turn
  followed by \<open>c1 + ... + cn\<close>, the texts of the content envelopes of the turn. When the
  turn has no error envelope, its texts have no \<^verbatim>\<open><\<close> in them (so that no raw HTML is
  rendered) and its tool names have no double quote, backslash, line break, form feed
  or NUL, the entry that started as the pending one displays exactly \<open>c1 + ... + cn\<close>
  after the stream has closed.
\<close>

theorem read_loop_whole_line_chunks:
  assumes "\<forall>(p, e) \<in> set pes. parse p = Some (envelope_json e) \<and> CHR 0x0A \<notin> set p"
    and "concat chunks = concat (map (\<lambda>(p, e). sse_line p) pes)"
    and "whole_lines chunks"
  shows "sendMessage_read_loop parse st chunks = reduce st (map snd pes)
       \<and> fullContent (sendMessage_stream parse st chunks end)
           = fullContent st @ concat (contents (map snd pes))
       \<and> (list_all orderly (map snd pes) \<longrightarrow>
            displayed (sendMessage_stream parse (pending cid) chunks Closed)
              = concat (contents (map snd pes)))
       \<and> (concat chunks' = concat chunks \<and> whole_lines chunks' \<longrightarrow>
            sendMessage_stream parse st chunks' end = sendMessage_stream parse st chunks end)"
proof -
  have loop: "sendMessage_read_loop parse s chunks = reduce s (map snd pes)" for s
  proof -
    have "sendMessage_read_loop parse s chunks = sendMessage_chunk parse s (concat chunks)"
      by (rule read_loop_whole_lines [OF assms(3)])
    also have "\<dots> = sendMessage_chunk parse s (concat (map (\<lambda>(p, e). sse_line p) pes))"
      by (simp only: assms(2))
    also have "\<dots> = reduce s (map snd pes)"
      by (rule sendMessage_chunk_wire [OF assms(1)])
    finally show ?thesis .
  qed
  have acc: "fullContent (sendMessage_stream parse st chunks end)
      = fullContent st @ concat (contents (map snd pes))"
    by (cases "end") (simp_all add: sendMessage_stream_def Let_def loop fullContent_reduce)
  have shown: "displayed (sendMessage_stream parse (pending cid) chunks Closed)
      = concat (contents (map snd pes))" if "list_all orderly (map snd pes)"
  proof -
    have "shows_text (reduce (pending cid) (map snd pes))"
      by (rule shows_text_reduce [OF that shows_text_pending])
    then have "displayed (sendMessage_stream parse (pending cid) chunks Closed)
        = fullContent (reduce (pending cid) (map snd pes))"
      by (simp add: sendMessage_stream_def Let_def loop shows_text_closed)
    then show ?thesis by (simp add: fullContent_reduce pending_def)
  qed
  have same: "sendMessage_stream parse st chunks' end = sendMessage_stream parse st chunks end"
    if eq: "concat chunks' = concat chunks" and cut: "whole_lines chunks'"
  proof -
    have "sendMessage_read_loop parse st chunks' = sendMessage_chunk parse st (concat chunks')"
      by (rule read_loop_whole_lines [OF cut])
    also have "\<dots> = sendMessage_chunk parse st (concat chunks)"
      by (simp only: eq)
    also have "\<dots> = sendMessage_read_loop parse st chunks"
      by (rule read_loop_whole_lines [OF assms(3), symmetric])
    finally show ?thesis by (simp add: sendMessage_stream_def)
  qed
  from loop [of st] acc shown same show ?thesis by blast
qed

text \<open>
  An instance of the amended C1: a turn of two content envelopes, a tool start and a
  \<open>done\<close>, in four chunks, one boundary just before a line feed and one between two
  line feeds; and the same bytes in one chunk.
\<close>

theorem read_loop_whole_line_chunks_witness:
  "fullContent (sendMessage_stream JSON_parse_flat (pending JNull) turn_chunks Closed) = ''Hello''
   \<and> displayed (sendMessage_stream JSON_parse_flat (pending JNull) turn_chunks Closed) = ''Hello''
   \<and> sendMessage_read_loop JSON_parse_flat (pending JNull) turn_chunks
       = reduce (pending JNull) [Content ''Hel'', Tool_start ''search'', Content ''lo'', Done ''abc'']
   \<and> sendMessage_stream JSON_parse_flat (pending JNull) [concat turn_chunks] Closed
       = sendMessage_stream JSON_parse_flat (pending JNull) turn_chunks Closed"
proof -
  have h1: "\<forall>(p, e) \<in> set turn_lines.
      JSON_parse_flat p = Some (envelope_json e) \<and> CHR 0x0A \<notin> set p"
    by (simp add: turn_lines_def decoder_defs)
  have h2: "concat turn_chunks = concat (map (\<lambda>(p, e). sse_line p) turn_lines)"
    by (simp add: turn_lines_def turn_chunks_def sse_line_def)
  have h3: "whole_lines turn_chunks"
    by (simp add: turn_chunks_def)
  have h4: "concat [concat turn_chunks] = concat turn_chunks \<and> whole_lines [concat turn_chunks]"
    by (simp add: turn_chunks_def)
  have h5: "list_all orderly (map snd turn_lines)"
    by (simp add: turn_lines_def orderly_def inert_def plain_name_def)
  have h6: "map snd turn_lines = [Content ''Hel'', Tool_start ''search'', Content ''lo'', Done ''abc'']"
    by (simp add: turn_lines_def)
  have h8: "concat (contents [Content ''Hel'', Tool_start ''search'', Content ''lo'', Done ''abc''])
      = ''Hello''"
    by (simp add: contents_def)
  have h7: "fullContent (pending JNull) = []"
    by (simp add: pending_def)
  show ?thesis
    using h4 h5
      read_loop_whole_line_chunks
        [OF h1 h2 h3, of "pending JNull" Closed JNull "[concat turn_chunks]"]
    by (simp add: h6 h7 h8)
qed

subsection \<open>C2: the scenario\<close>

text \<open>
  C2, as stated, fails: after the scenario there is no badge for \<open>search\<close>. The first
  content envelope replaces the children of the entry, the badge among them, and the
  later \<open>tool_end\<close> finds no indicator to complete.
\<close>

theorem scenario_badge_lost: "\<not> (displayed (reduce (pending JNull) scenario) = ''The answer is 42.''
     \<and> badges (reduce (pending JNull) scenario) = [(''search'', Complete)]
     \<and> \<not> loading (reduce (pending JNull) scenario)
     \<and> currentConversationId (reduce (pending JNull) scenario) = JStr ''abc'')"
  by (simp add: scenario_state badges_def children_def)

text \<open>
  C2, amended. Reducing the scenario from the pending entry yields the accumulated and
  displayed text \<open>The answer is 42.\<close>, no badge at all, no loading indicator, and the
  session identifier \<open>abc\<close>.
\<close>

theorem scenario_result: "reduce (pending JNull) scenario =
     \<lparr>currentConversationId = JStr ''abc'', fullContent = ''The answer is 42.'',
      entry = Some [Rendered ''The answer is 42.'']\<rparr>
   \<and> displayed (reduce (pending JNull) scenario) = ''The answer is 42.''
   \<and> badges (reduce (pending JNull) scenario) = []
   \<and> \<not> loading (reduce (pending JNull) scenario)
   \<and> currentConversationId (reduce (pending JNull) scenario) = JStr ''abc''"
  by (simp add: scenario_state badges_def children_def displayed_def loading_def)

subsection \<open>C3: \<open>tool_end\<close> without a badge\<close>

text \<open>
  C3, as stated, fails: on the pending entry, which has no badge for \<open>x\<close>, the envelope
  \<open>tool_end(x)\<close> creates none.
\<close>

theorem tool_end_without_start_no_badge: "plain_name ''x'' \<and> badges_for ''x'' (pending JNull) = []
    \<and> badges_for ''x'' (apply_envelope (pending JNull) (Tool_end ''x'')) = []"
proof -
  have p: "plain_name ''x''" by (simp add: plain_name_def)
  show ?thesis
    by (simp add: p apply_envelope_Tool_end [OF p] tracked_entry_def tracked_def
        badges_for_def badges_def children_def pending_def tool_update_def)
qed

text \<open>
  C3, amended. For every tool name \<open>x\<close> without double quote, backslash, line break, form
  feed or NUL, and every state whose entry holds no rendering of a text with \<^verbatim>\<open><\<close> in it
  (so that no raw HTML is rendered there) and no badge for \<open>x\<close>, applying \<open>tool_end(x)\<close>
  leaves the state as it is: the chain of tests returns the same state without an
  exception, and no badge is created.
\<close>

theorem tool_end_without_badge:
  assumes "plain_name x" and "tracked_entry st" and "badges_for x st = []"
  shows "sendMessage_data st (envelope_json (Tool_end x)) = Inr st
       \<and> apply_envelope st (Tool_end x) = st"
proof -
  have same: "map_option (\<lambda>ns. tool_update ns x False) (entry st) = entry st"
  proof (cases "entry st")
    case None
    then show ?thesis by simp
  next
    case (Some ns)
    with assms(3) have "querySelector_tool (map of_char x) ns = None"
      by (simp add: badges_for_def badges_entry querySelector_tool_None filter_map comp_def)
    then have "tool_update ns x False = ns" by (rule tool_update_end_absent)
    with Some show ?thesis by simp
  qed
  have "sendMessage_data st (envelope_json (Tool_end x)) = Inr st"
    by (simp only: sendMessage_data_Tool_end [OF assms(1,2)] same) simp
  moreover have "apply_envelope st (Tool_end x) = st"
    by (simp only: apply_envelope_Tool_end [OF assms(1,2)] same) simp
  ultimately show ?thesis by simp
qed

text \<open>
  An instance of the amended C3: an entry with a badge for \<open>search\<close> and none for
  \<open>fetch\<close>.
\<close>

theorem tool_end_without_badge_witness:
  "plain_name ''fetch'' \<and> tracked_entry searching \<and> badges_for ''fetch'' searching = []
   \<and> sendMessage_data searching (envelope_json (Tool_end ''fetch'')) = Inr searching
   \<and> apply_envelope searching (Tool_end ''fetch'') = searching"
proof -
  have p: "plain_name ''fetch''" by (simp add: plain_name_def)
  have t: "tracked_entry searching"
    by (simp add: searching_state tracked_entry_def tracked_def)
  have b: "badges_for ''fetch'' searching = []"
    by (simp add: searching_state badges_for_def badges_def children_def)
  show ?thesis using p t b tool_end_without_badge [OF p t b] by blast
qed

subsection \<open>C4: the error envelope\<close>

text \<open>
  C4, as stated, fails: an entry with an active badge for \<open>search\<close> has no badge left
  after an error envelope.
\<close>

theorem error_removes_badges: "badges (apply_envelope (pending JNull) (Tool_start ''search'')) = [(''search'', Active)]
   \<and> badges (apply_envelope (apply_envelope (pending JNull) (Tool_start ''search'')) (Error ''boom'')) = []"
proof -
  have "apply_envelope (pending JNull) (Tool_start ''search'') = searching"
    by (simp add: searching_def)
  then show ?thesis
    by (simp add: searching_state badges_def children_def apply_envelope_Error
        updateMessageContent_def renderMarkdown_def)
qed

text \<open>
  C4, amended. On every entry that exists, an error envelope with text \<open>m\<close> replaces all
  the children of the entry by the rendering of \<open>Error: \<close> followed by \<open>m\<close>: that is the
  text displayed afterwards, no tool badge and no loading indicator remain, and the
  accumulated text and the session identifier are unchanged.
\<close>

theorem error_replaces_entry:
  assumes "entry st = Some ns"
  shows "apply_envelope st (Error m) = st\<lparr>entry := Some [Rendered (''Error: '' @ m)]\<rparr>
     \<and> displayed (apply_envelope st (Error m)) = ''Error: '' @ m
     \<and> badges (apply_envelope st (Error m)) = []
     \<and> \<not> loading (apply_envelope st (Error m))
     \<and> fullContent (apply_envelope st (Error m)) = fullContent st
     \<and> currentConversationId (apply_envelope st (Error m)) = currentConversationId st"
  using assms
  by (simp add: apply_envelope_Error updateMessageContent_def renderMarkdown_def
      displayed_def badges_def loading_def children_def)

text \<open>An instance of the amended C4, on the entry with the active badge.\<close>

theorem error_replaces_entry_witness:
  "entry searching = Some [Tool_indicator ''search'' Active ''Using: search...'', Loading_indicator]
   \<and> displayed (apply_envelope searching (Error ''boom'')) = ''Error: boom''
   \<and> badges (apply_envelope searching (Error ''boom'')) = []
   \<and> \<not> loading (apply_envelope searching (Error ''boom''))"
proof -
  have e: "entry searching =
      Some [Tool_indicator ''search'' Active ''Using: search...'', Loading_indicator]"
    by (simp add: searching_state)
  have "displayed (apply_envelope searching (Error ''boom'')) = ''Error: '' @ ''boom''
      \<and> badges (apply_envelope searching (Error ''boom'')) = []
      \<and> \<not> loading (apply_envelope searching (Error ''boom''))"
    using error_replaces_entry [OF e, of "''boom''"] by blast
  with e show ?thesis by simp
qed

subsection \<open>C5: envelopes after the terminal one\<close>

text \<open>
  C5, as stated, fails: a content envelope after \<open>done\<close> is applied, so the state after
  the whole sequence differs from the state after the prefix that ends with \<open>done\<close>.
\<close>

theorem content_after_done_applied: "reduce (pending JNull) [Done ''abc'', Content ''late'']
     \<noteq> reduce (pending JNull) [Done ''abc'']"
  by (simp add: reduce_def apply_envelope_Content apply_envelope_Done pending_def)

text \<open>
  C5, amended. The reducer keeps no record of a terminal envelope, and every envelope
  after one is applied like any other. For every sequence, the accumulated text is the
  text before it followed by the texts of all its content envelopes, those after a
  \<open>done\<close> or an \<open>error\<close> included, and the session identifier is that of its last \<open>done\<close>
  envelope. A \<open>done\<close> envelope changes nothing else: with it or without it in the
  sequence, the children of the entry (text shown, badges, loading indicator) are the
  same at the end. A content envelope after an \<open>error\<close> replaces the error text, with
  the same state as if the error had not been sent; a \<open>tool_start\<close> after an \<open>error\<close>
  puts a badge in front of the error text (for a tool name and an error text as in
  the amended C3).
\<close>

theorem reduce_past_terminal:
  "fullContent (reduce st es) = fullContent st @ concat (contents es)
   \<and> currentConversationId (reduce st es)
       = (case last_done es of None \<Rightarrow> currentConversationId st | Some j \<Rightarrow> JStr j)
   \<and> entry (reduce st (pre @ Done i # post)) = entry (reduce st (pre @ post))
   \<and> displayed (reduce st (pre @ Done i # post)) = displayed (reduce st (pre @ post))
   \<and> badges (reduce st (pre @ Done i # post)) = badges (reduce st (pre @ post))
   \<and> loading (reduce st (pre @ Done i # post)) = loading (reduce st (pre @ post))
   \<and> apply_envelope (apply_envelope st (Error m)) (Content c) = apply_envelope st (Content c)
   \<and> (plain_name x \<and> inert m \<and> entry st \<noteq> None \<longrightarrow>
        entry (apply_envelope (apply_envelope st (Error m)) (Tool_start x))
          = Some [Tool_indicator x Active (''Using: '' @ x @ ''...''), Rendered (''Error: '' @ m)])"
proof -
  have done_entry: "entry (reduce st (pre @ Done i # post)) = entry (reduce st (pre @ post))"
  proof -
    have "entry (reduce (apply_envelope (reduce st pre) (Done i)) post)
        = entry (reduce (reduce st pre) post)"
      by (rule reduce_same_entry) (simp_all add: apply_envelope_Done)
    then show ?thesis by (simp add: reduce_append reduce_Cons)
  qed
  have error_content:
    "apply_envelope (apply_envelope st (Error m)) (Content c) = apply_envelope st (Content c)"
    by (simp add: apply_envelope_Error apply_envelope_Content updateMessageContent_def
        split: option.splits)
  have error_tool: "entry (apply_envelope (apply_envelope st (Error m)) (Tool_start x))
      = Some [Tool_indicator x Active (''Using: '' @ x @ ''...''), Rendered (''Error: '' @ m)]"
    if p: "plain_name x" and m: "inert m" and e: "entry st \<noteq> None"
  proof -
    from e have after: "apply_envelope st (Error m) = st\<lparr>entry := Some [Rendered (''Error: '' @ m)]\<rparr>"
      by (auto simp: apply_envelope_Error updateMessageContent_def renderMarkdown_def)
    from m have t: "tracked_entry (st\<lparr>entry := Some [Rendered (''Error: '' @ m)]\<rparr>)"
      by (simp add: tracked_entry_def tracked_def inert_def)
    show ?thesis
      by (simp only: after apply_envelope_Tool_start [OF p t]) (simp add: tool_update_def)
  qed
  from done_entry have done_seen:
    "displayed (reduce st (pre @ Done i # post)) = displayed (reduce st (pre @ post))
     \<and> badges (reduce st (pre @ Done i # post)) = badges (reduce st (pre @ post))
     \<and> loading (reduce st (pre @ Done i # post)) = loading (reduce st (pre @ post))"
    by (simp add: displayed_def badges_def loading_def children_def)
  from done_entry done_seen error_content error_tool show ?thesis
    by (simp add: fullContent_reduce conversation_reduce)
qed

text \<open>
  An instance of the amended C5: content after \<open>done\<close>, a second \<open>done\<close>, and a tool
  start after an error.
\<close>

theorem reduce_past_terminal_witness:
  "fullContent (reduce (pending JNull) [Content ''a'', Done ''abc'', Content ''late'', Done ''xyz''])
     = ''alate''
   \<and> currentConversationId
        (reduce (pending JNull) [Content ''a'', Done ''abc'', Content ''late'', Done ''xyz''])
     = JStr ''xyz''
   \<and> plain_name ''search'' \<and> inert ''boom'' \<and> entry (pending JNull) \<noteq> None
   \<and> entry (apply_envelope (apply_envelope (pending JNull) (Error ''boom'')) (Tool_start ''search''))
     = Some [Tool_indicator ''search'' Active ''Using: search...'', Rendered ''Error: boom'']"
proof -
  have h: "plain_name ''search'' \<and> inert ''boom'' \<and> entry (pending JNull) \<noteq> None"
    by (simp add: plain_name_def inert_def pending_def)
  have c: "concat (contents [Content ''a'', Done ''abc'', Content ''late'', Done ''xyz'']) = ''alate''
      \<and> last_done [Content ''a'', Done ''abc'', Content ''late'', Done ''xyz''] = Some ''xyz''
      \<and> fullContent (pending JNull) = []"
    by (simp add: contents_def pending_def)
  show ?thesis
    using h c
      reduce_past_terminal [of "pending JNull"
        "[Content ''a'', Done ''abc'', Content ''late'', Done ''xyz'']" "[]" "''abc''" "[]"
        "''boom''" "[]" "''search''"]
    by simp
qed

subsection \<open>C6: one turn in flight\<close>

text \<open>
  C6. While \<open>isStreaming\<close> is set, \<open>sendMessage\<close> returns the page as it is: no request
  is posted and no message is added or changed. There is a call in flight exactly when
  the flag is set, so there is never more than one: every operation on the page
  preserves this, and it holds in every state reached from the initial page.
\<close>

theorem sendMessage_single_flight:
  "(isStreaming c \<longrightarrow> sendMessage_begin c = c)
   \<and> (single_flight c \<longrightarrow>
        single_flight (client_step c op) \<and> in_flight (client_step c op) \<le> 1)
   \<and> single_flight (foldl client_step (initial_client m) ops)
   \<and> in_flight (foldl client_step (initial_client m) ops) \<le> 1"
proof -
  have le: "in_flight d \<le> 1" if "single_flight d" for d
    using that by (simp add: single_flight_def split: if_splits)
  show ?thesis
    using sendMessage_begin_streaming [of c] single_flight_step [of c op]
      single_flight_reachable [of m ops] le
    by blast
qed

text \<open>An instance of C6: a second \<open>sendMessage\<close> while the first turn is streaming.\<close>

theorem sendMessage_single_flight_witness:
  "isStreaming streaming_client
   \<and> sendMessage_begin streaming_client = streaming_client
   \<and> single_flight streaming_client
   \<and> single_flight (client_step streaming_client Send)
   \<and> in_flight (client_step streaming_client Send) \<le> 1"
proof -
  have s: "isStreaming streaming_client"
    by (simp add: streaming_client_def sendMessage_begin_def initial_client_def trim_def
        is_space_def updateSendButton_def Let_def)
  have f: "single_flight streaming_client"
    by (simp add: streaming_client_def sendMessage_begin_def initial_client_def trim_def
        is_space_def updateSendButton_def Let_def single_flight_def)
  show ?thesis using s f sendMessage_single_flight [of streaming_client Send "JStr ''m''" "[]"] by auto
qed

subsection \<open>C7: duplicate \<open>tool_start\<close>\<close>




subsection \<open>C8: the empty content envelope\<close>

text \<open>
  C8, as stated, fails: on the pending entry the empty content envelope removes the
  loading indicator.
\<close>

theorem empty_content_clears_loading: "loading (pending JNull) \<and> \<not> loading (apply_envelope (pending JNull) (Content []))"
  by (simp add: loading_def children_def pending_def apply_envelope_Content
      updateMessageContent_def renderMarkdown_def)

text \<open>
  C8, amended. A content envelope with the empty string leaves the accumulated text and
  the session identifier unchanged. Where there is no entry it changes nothing. Where
  the entry exists, its children are replaced by the rendering of the accumulated text
  alone (by nothing when that text is empty): afterwards the entry has no badge and no
  loading indicator and displays the accumulated text. After any content envelope the
  empty content envelope changes nothing.
\<close>

theorem empty_content_effect:
  "fullContent (apply_envelope st (Content [])) = fullContent st
   \<and> currentConversationId (apply_envelope st (Content [])) = currentConversationId st
   \<and> (entry st = None \<longrightarrow> apply_envelope st (Content []) = st)
   \<and> (entry st \<noteq> None \<longrightarrow>
        apply_envelope st (Content []) =
          st\<lparr>entry := Some (if fullContent st = [] then [] else [Rendered (fullContent st)])\<rparr>
        \<and> badges (apply_envelope st (Content [])) = []
        \<and> \<not> loading (apply_envelope st (Content []))
        \<and> displayed (apply_envelope st (Content [])) = fullContent st)
   \<and> apply_envelope (apply_envelope st (Content c)) (Content []) = apply_envelope st (Content c)"
  by (auto simp: apply_envelope_Content updateMessageContent_def renderMarkdown_def
      badges_def loading_def displayed_def children_def split: option.splits)

text \<open>
  An instance of the amended C8: the empty content envelope on the entry with the
  active badge, and on the entry after the content envelope \<open>Hi\<close>.
\<close>

theorem empty_content_effect_witness:
  "entry searching \<noteq> None
   \<and> apply_envelope searching (Content []) = searching\<lparr>entry := Some []\<rparr>
   \<and> badges searching = [(''search'', Active)] \<and> loading searching
   \<and> badges (apply_envelope searching (Content [])) = []
   \<and> \<not> loading (apply_envelope searching (Content []))
   \<and> apply_envelope answering (Content []) = answering"
proof -
  have e: "entry searching \<noteq> None \<and> fullContent searching = []
      \<and> badges searching = [(''search'', Active)] \<and> loading searching"
    by (simp add: searching_state badges_def loading_def children_def)
  show ?thesis
    using e empty_content_effect [of searching "[]"]
      empty_content_effect [of "pending JNull" "''Hi''"]
    by (simp add: answering_def) (simp add: searching_state badges_def loading_def children_def)
qed

subsection \<open>C9: the upload turn\<close>




subsection \<open>C10: lines that are no envelope\<close>

text \<open>
  C10. A line that does not start with \<^verbatim>\<open>data: \<close> leaves the state unchanged; so does a
  line whose payload the decoder rejects; so does a line whose payload decodes to a
  value on which the chain of tests throws. The loop has no other exit by exception:
  its result is a state for every sequence of chunks.
\<close>

theorem sendMessage_line_skips:
  "(\<not> prefix ''data: '' line \<longrightarrow> sendMessage_line parse st line = st)
   \<and> (parse (drop 6 line) = None \<longrightarrow> sendMessage_line parse st line = st)
   \<and> (\<forall>d x. parse (drop 6 line) = Some d \<and> sendMessage_data st d = Inl x \<longrightarrow>
         sendMessage_line parse st line = st)"
  by (simp add: sendMessage_line_def)

text \<open>
  An instance of C10: a line of another SSE field, a \<^verbatim>\<open>data:\<close> line cut short, and the
  payload \<^verbatim>\<open>null\<close>, whose property \<open>type\<close> cannot be read.
\<close>

theorem sendMessage_line_skips_witness:
  \<open>\<not> prefix ''data: '' ''event: ping''
   \<and> sendMessage_line JSON_parse_flat searching ''event: ping'' = searching
   \<and> JSON_parse_flat (drop 6 ''data: {"type": "con'') = None
   \<and> sendMessage_line JSON_parse_flat searching ''data: {"type": "con'' = searching
   \<and> JSON_parse_flat (drop 6 ''data: null'') = Some JNull
   \<and> sendMessage_data searching JNull = Inl TypeError
   \<and> sendMessage_line JSON_parse_flat searching ''data: null'' = searching\<close>
proof -
  have a: \<open>\<not> prefix ''data: '' ''event: ping''\<close> by simp
  have b: \<open>JSON_parse_flat (drop 6 ''data: {"type": "con'') = None\<close>
    by (simp add: decoder_defs)
  have c: \<open>JSON_parse_flat (drop 6 ''data: null'') = Some JNull\<close>
    by (simp add: decoder_defs)
  have d: "sendMessage_data searching JNull = Inl TypeError"
    by (simp add: sendMessage_data_def)
  show ?thesis
    using a b c d
      sendMessage_line_skips [of \<open>''event: ping''\<close> JSON_parse_flat searching]
      sendMessage_line_skips [of \<open>''data: {"type": "con''\<close> JSON_parse_flat searching]
      sendMessage_line_skips [of \<open>''data: null''\<close> JSON_parse_flat searching]
    by blast
qed

end
